theory Spec2Isabelle
  imports Complex_Main "HOL-Library.Multiset" "HOL-Library.Product_Lexorder"
begin

section \<open>Python values and failures\<close>

text \<open>
  The repository is two Python modules, \<^verbatim>\<open>loss.py\<close> and \<^verbatim>\<open>preprocessor.py\<close>, working on
  numpy arrays. A one-dimensional array is a list; a two-dimensional array is a record of
  its column count and its rows. Python's \<^verbatim>\<open>int\<close> is \<^typ>\<open>int\<close>. Every exception the source
  can raise is a value \<open>Inl e\<close> of the result type.

  A float64 value is the \<^typ>\<open>real\<close> number it denotes (infinities and NaN are not values
  of the model; where the source turns one into an exception, the model has a branch for
  it). A float64 operation is the exact operation followed by rounding, and the rounding
  is the parameter \<open>rnd\<close> of every function that needs it. Every operation whose result
  decides something discrete is rounded as in the source: the operands of \<^verbatim>\<open>ceil\<close> and
  \<^verbatim>\<open>int\<close>, and the residuals and squared residuals that \<^verbatim>\<open>argsort\<close> compares. The numbers
  returned to the caller (the loss, the gradient, the window means) are the exact sums
  and quotients of those float64 values. \<open>float64_round\<close> below is IEEE 754 rounding to
  nearest, ties to even, for the parameter.
\<close>

datatype py_error =
  ValueError | IndexError | ZeroDivisionError | OverflowError | NotImplementedError

definition and_then :: "py_error + 'a \<Rightarrow> ('a \<Rightarrow> py_error + 'b) \<Rightarrow> py_error + 'b" where
  "and_then m f = (case m of Inl e \<Rightarrow> Inl e | Inr v \<Rightarrow> f v)"

record ndarray2 =
  shape1 :: nat
  rows :: "real list list"

definition shape0 :: "ndarray2 \<Rightarrow> nat" where
  "shape0 X = length (rows X)"

definition wf_ndarray2 :: "ndarray2 \<Rightarrow> bool" where
  "wf_ndarray2 X \<longleftrightarrow> list_all (\<lambda>r. length r = shape1 X) (rows X)"

definition vdot :: "real list \<Rightarrow> real list \<Rightarrow> real" where
  "vdot a b = sum_list (map2 (*) a b)"

text \<open>
  \<^verbatim>\<open>X.dot(v)\<close> for a matrix and a vector: the shapes must be aligned. The product of a
  row and the vector is \<open>dot\<close>: numpy's, whose order of accumulation is its own, or the
  exact \<open>vdot\<close>.
\<close>

definition ndarray2_dot ::
  "(real list \<Rightarrow> real list \<Rightarrow> real) \<Rightarrow> ndarray2 \<Rightarrow> real list \<Rightarrow> py_error + real list" where
  "ndarray2_dot dot X v =
     (if shape1 X \<noteq> length v then Inl ValueError
      else Inr (map (\<lambda>row. dot row v) (rows X)))"

text \<open>\<^verbatim>\<open>a - b\<close> on one-dimensional arrays, with numpy's broadcasting of a length-1 operand.\<close>

definition np_sub :: "(real \<Rightarrow> real) \<Rightarrow> real list \<Rightarrow> real list \<Rightarrow> py_error + real list" where
  "np_sub rnd a b =
     (if length a = length b then Inr (map2 (\<lambda>u v. rnd (u - v)) a b)
      else if length b = 1 then Inr (map (\<lambda>v. rnd (v - hd b)) a)
      else if length a = 1 then Inr (map (\<lambda>v. rnd (hd a - v)) b)
      else Inl ValueError)"

definition np_square :: "(real \<Rightarrow> real) \<Rightarrow> real list \<Rightarrow> real list" where
  "np_square rnd a = map (\<lambda>v. rnd (v * v)) a"

text \<open>\<^verbatim>\<open>a[:k]\<close>: a negative bound counts from the end.\<close>

definition py_slice_to :: "'a list \<Rightarrow> int \<Rightarrow> 'a list" where
  "py_slice_to xs k = (if 0 \<le> k then take (nat k) xs else take (length xs - nat (- k)) xs)"

text \<open>\<^verbatim>\<open>a[idx]\<close> with an index array (indices here are never negative).\<close>

definition np_take :: "'a list \<Rightarrow> nat list \<Rightarrow> py_error + 'a list" where
  "np_take xs idx =
     (if list_all (\<lambda>i. i < length xs) idx then Inr (map (\<lambda>i. xs ! i) idx) else Inl IndexError)"

definition ndarray2_take :: "ndarray2 \<Rightarrow> nat list \<Rightarrow> py_error + ndarray2" where
  "ndarray2_take X idx =
     and_then (np_take (rows X) idx) (\<lambda>rs. Inr \<lparr>shape1 = shape1 X, rows = rs\<rparr>)"

definition ndarray2_transpose :: "ndarray2 \<Rightarrow> ndarray2" where
  "ndarray2_transpose X =
     \<lparr>shape1 = shape0 X, rows = map (\<lambda>j. map (\<lambda>r. r ! j) (rows X)) [0..<shape1 X]\<rparr>"

section \<open>float64 rounding\<close>

text \<open>
  IEEE 754 binary64 rounding of a real number to the nearest representable one, ties to
  the even significand. \<open>ulp a\<close> is the spacing of the representable numbers around
  \<open>a \<ge> 0\<close>: \<open>2\<^sup>e\<^sup>-\<^sup>5\<^sup>2\<close> for \<open>2\<^sup>e \<le> a < 2\<^sup>e\<^sup>+\<^sup>1\<close>, and never below \<open>2\<^sup>-\<^sup>1\<^sup>0\<^sup>7\<^sup>4\<close> (subnormal
  numbers). Numbers of magnitude \<open>2\<^sup>1\<^sup>0\<^sup>2\<^sup>4\<close> and more, which float64 rounds to an
  infinity, are outside the model.
\<close>

definition round_half_even :: "real \<Rightarrow> int" where
  "round_half_even v =
     (let f = \<lfloor>v\<rfloor> in
      if v - of_int f < 1 / 2 then f
      else if 1 / 2 < v - of_int f then f + 1
      else if even f then f else f + 1)"

fun ulp_up :: "nat \<Rightarrow> real \<Rightarrow> real \<Rightarrow> real" where
  "ulp_up 0 u a = u"
| "ulp_up (Suc fuel) u a = (if a < 2 ^ 53 * u then u else ulp_up fuel (2 * u) a)"

fun ulp_down :: "nat \<Rightarrow> real \<Rightarrow> real \<Rightarrow> real" where
  "ulp_down 0 u a = u"
| "ulp_down (Suc fuel) u a = (if 2 ^ 52 * u \<le> a then u else ulp_down fuel (u / 2) a)"

definition ulp :: "real \<Rightarrow> real" where
  "ulp a = (if 1 \<le> a then ulp_up 1023 (1 / 2 ^ 52) a else ulp_down 1022 (1 / 2 ^ 52) a)"

definition round_nonneg :: "real \<Rightarrow> real" where
  "round_nonneg a = (if a = 0 then 0 else ulp a * of_int (round_half_even (a / ulp a)))"

definition float64_round :: "real \<Rightarrow> real" where
  "float64_round v = (if v < 0 then - round_nonneg (- v) else round_nonneg v)"

text \<open>The powers of two, for the proofs about \<open>ulp\<close>.\<close>

definition pow2 :: "real \<Rightarrow> bool" where
  "pow2 u \<longleftrightarrow> (\<exists>k::int. u = 2 powr (of_int k))"

text \<open>A dot product that accumulates from left to right, rounding every operation.\<close>

definition seq_dot :: "(real \<Rightarrow> real) \<Rightarrow> real list \<Rightarrow> real list \<Rightarrow> real" where
  "seq_dot rnd a b = fold (\<lambda>(u, v) acc. rnd (acc + rnd (u * v))) (zip a b) 0"

section \<open>loss.py\<close>

text \<open>
  \<^verbatim>\<open>np.argsort\<close> is numpy's, not the repository's: it is a parameter of the model. What
  numpy promises of it is \<open>argsort_ok\<close>: the result is a permutation of the indices along
  which the array is ascending. The source calls it with the default \<^verbatim>\<open>kind\<close>, which numpy
  documents as not stable, so nothing is assumed about the order of equal entries.
\<close>

definition argsort_ok :: "(real list \<Rightarrow> nat list) \<Rightarrow> real list \<Rightarrow> bool" where
  "argsort_ok argsort a \<longleftrightarrow>
     mset (argsort a) = mset [0..<length a] \<and> sorted (map (\<lambda>i. a ! i) (argsort a))"

text \<open>A stable argsort (insertion sort on the indices), one instance of the parameter.\<close>

definition stable_argsort :: "real list \<Rightarrow> nat list" where
  "stable_argsort a = sort_key (\<lambda>i. a ! i) [0..<length a]"

record Loss =
  contamination_proportion :: real

definition Loss_init :: "real \<Rightarrow> Loss" where
  "Loss_init c = \<lparr>contamination_proportion = c\<rparr>"

definition SquaredLoss_init :: "real \<Rightarrow> Loss" where
  "SquaredLoss_init c = Loss_init c"

text \<open>The abstract \<^verbatim>\<open>Loss.__call__\<close> raises.\<close>

definition Loss_call :: "Loss \<Rightarrow> ndarray2 \<Rightarrow> real list \<Rightarrow> real list \<Rightarrow> py_error + (real \<times> real list)" where
  "Loss_call self X w y = Inl NotImplementedError"

text \<open>
  \<^verbatim>\<open>SquaredLoss.__call__\<close>. \<^verbatim>\<open>1 - c\<close> and its product with the row count are float64
  operations. Both components of the returned pair divide by \<open>kept_size\<close>: when it is 0
  the slice \<^verbatim>\<open>[:0]\<close> is empty, the builtin \<^verbatim>\<open>sum\<close> of it is the Python integer 0, and
  \<^verbatim>\<open>0 / 0\<close> raises ZeroDivisionError.
\<close>

definition SquaredLoss_call ::
  "(real \<Rightarrow> real) \<Rightarrow> (real list \<Rightarrow> real list \<Rightarrow> real) \<Rightarrow> (real list \<Rightarrow> nat list)
     \<Rightarrow> Loss \<Rightarrow> ndarray2 \<Rightarrow> real list \<Rightarrow> real list \<Rightarrow> py_error + (real \<times> real list)" where
  "SquaredLoss_call rnd dot argsort self X w y =
     (let kept_size = \<lceil>rnd (real (shape0 X) * rnd (1 - contamination_proportion self))\<rceil> in
      and_then (ndarray2_dot dot X w) (\<lambda>Xw.
      and_then (np_sub rnd Xw y) (\<lambda>residuals.
      let losses = np_square rnd residuals;
          kept_indices = py_slice_to (argsort losses) kept_size in
      and_then (np_take losses kept_indices) (\<lambda>kept_losses.
      if kept_size = 0 then Inl ZeroDivisionError
      else
        and_then (ndarray2_take X kept_indices) (\<lambda>Xk.
        and_then (np_take residuals kept_indices) (\<lambda>rk.
        and_then (ndarray2_dot vdot (ndarray2_transpose Xk) rk) (\<lambda>g.
        Inr (sum_list kept_losses / real_of_int kept_size,
             map (\<lambda>v. 2 / real_of_int kept_size * v) g))))))))"

text \<open>
  The residual vector \<open>r = X\<cdot>w - y\<close> of the specification, by index, as float64
  computes it.
\<close>

definition residuals ::
  "(real \<Rightarrow> real) \<Rightarrow> (real list \<Rightarrow> real list \<Rightarrow> real) \<Rightarrow> ndarray2 \<Rightarrow> real list \<Rightarrow> real list
     \<Rightarrow> real list" where
  "residuals rnd dot X w y = map (\<lambda>i. rnd (dot (rows X ! i) w - y ! i)) [0..<shape0 X]"

section \<open>preprocessor.py\<close>

text \<open>The abstract \<^verbatim>\<open>Preprocessor.__call__\<close> raises.\<close>

definition Preprocessor_call :: "real list \<Rightarrow> real list \<Rightarrow> py_error + (real list \<times> real list)" where
  "Preprocessor_call x y = Inl NotImplementedError"

definition NullPreprocessor_call :: "real list \<Rightarrow> real list \<Rightarrow> py_error + (real list \<times> real list)" where
  "NullPreprocessor_call x y = Inr (x, y)"

subsection \<open>KernelPreprocessor\<close>



record KernelPreprocessor =
  kernel_size :: "real \<times> real"
  strides :: "real \<times> real"
  threshold :: real


text \<open>\<^verbatim>\<open>a.min()\<close>: numpy refuses an empty array.\<close>

definition np_min :: "real list \<Rightarrow> py_error + real" where
  "np_min a = (if a = [] then Inl ValueError else Inr (Min (set a)))"

text \<open>\<^verbatim>\<open>int(v)\<close> on a float truncates towards zero.\<close>

definition py_int :: "real \<Rightarrow> int" where
  "py_int v = (if 0 \<le> v then \<lfloor>v\<rfloor> else \<lceil>v\<rceil>)"

text \<open>
  \<^verbatim>\<open>ceil(a / b)\<close> and \<^verbatim>\<open>int(a / b)\<close> where \<open>a\<close> is a numpy float: the quotient is
  rounded; dividing by zero gives NaN (for \<open>0 / 0\<close>) or an infinity, which \<^verbatim>\<open>ceil\<close> and
  \<^verbatim>\<open>int\<close> refuse with ValueError and OverflowError.
\<close>

definition quotient_to_int ::
  "(real \<Rightarrow> int) \<Rightarrow> (real \<Rightarrow> real) \<Rightarrow> real \<Rightarrow> real \<Rightarrow> py_error + int" where
  "quotient_to_int conv rnd a b =
     (if b \<noteq> 0 then Inr (conv (rnd (a / b)))
      else if a = 0 then Inl ValueError else Inl OverflowError)"

text \<open>The window indices one sample is assigned to: the body of the first loop up to the
  two nested \<^verbatim>\<open>range\<close> loops.\<close>

definition kernel_indices ::
  "(real \<Rightarrow> real) \<Rightarrow> KernelPreprocessor \<Rightarrow> real list \<Rightarrow> real list \<Rightarrow> real \<times> real
     \<Rightarrow> py_error + (int \<times> int) list" where
  "kernel_indices rnd self x y s =
     (case s of (xi, yi) \<Rightarrow>
      and_then (np_min x) (\<lambda>xmin.
      and_then (quotient_to_int ceiling rnd (rnd (xi - xmin)) (fst (strides self))) (\<lambda>ix_low.
      and_then (quotient_to_int py_int rnd (rnd (xi - rnd (xmin - fst (kernel_size self))))
                  (fst (strides self))) (\<lambda>ix_high.
      and_then (np_min y) (\<lambda>ymin.
      and_then (quotient_to_int ceiling rnd (rnd (yi - ymin)) (snd (strides self))) (\<lambda>iy_low.
      and_then (quotient_to_int py_int rnd (rnd (yi - rnd (ymin - snd (kernel_size self))))
                  (snd (strides self))) (\<lambda>iy_high.
      Inr (concat (map (\<lambda>ix. map (\<lambda>iy. (ix, iy)) [iy_low..iy_high]) [ix_low..ix_high])))))))))"

text \<open>
  The dictionary \<^verbatim>\<open>kernels\<close>, in insertion order (the second loop iterates over it):
  \<^verbatim>\<open>kernels[key].append(s)\<close>, and on KeyError \<^verbatim>\<open>kernels[key] = [s]\<close>.
\<close>

fun kernels_append :: "('k \<times> 'v list) list \<Rightarrow> 'k \<Rightarrow> 'v \<Rightarrow> ('k \<times> 'v list) list" where
  "kernels_append [] key s = [(key, [s])]"
| "kernels_append ((k, vs) # rest) key s =
     (if k = key then (k, vs @ [s]) # rest else (k, vs) # kernels_append rest key s)"

fun fill_kernels ::
  "(real \<Rightarrow> real) \<Rightarrow> KernelPreprocessor \<Rightarrow> real list \<Rightarrow> real list \<Rightarrow> (real \<times> real) list
     \<Rightarrow> ((int \<times> int) \<times> (real \<times> real) list) list
     \<Rightarrow> py_error + ((int \<times> int) \<times> (real \<times> real) list) list" where
  "fill_kernels rnd self x y [] kernels = Inr kernels"
| "fill_kernels rnd self x y (s # rest) kernels =
     and_then (kernel_indices rnd self x y s) (\<lambda>keys.
       fill_kernels rnd self x y rest (fold (\<lambda>key d. kernels_append d key s) keys kernels))"

text \<open>
  The second loop. \<^verbatim>\<open>combine\<close> returns a pair or \<^verbatim>\<open>None\<close>; unpacking \<^verbatim>\<open>None\<close> raises the
  TypeError that the loop catches to skip the window.
\<close>

fun collect ::
  "((real \<times> real) list \<Rightarrow> py_error + (real \<times> real) option)
     \<Rightarrow> ((int \<times> int) \<times> (real \<times> real) list) list \<Rightarrow> real list \<Rightarrow> real list
     \<Rightarrow> py_error + (real list \<times> real list)" where
  "collect combine [] new_x new_y = Inr (new_x, new_y)"
| "collect combine ((key, members) # rest) new_x new_y =
     (case combine members of
        Inl e \<Rightarrow> Inl e
      | Inr None \<Rightarrow> collect combine rest new_x new_y
      | Inr (Some (cx, cy)) \<Rightarrow> collect combine rest (new_x @ [cx]) (new_y @ [cy]))"

text \<open>
  \<^verbatim>\<open>KernelPreprocessor.__call__\<close>. The attribute \<^verbatim>\<open>self.threshold_size\<close>, set before the second
  loop and deleted after it, is the first argument of \<open>combine\<close>.
\<close>

definition KernelPreprocessor_call ::
  "(real \<Rightarrow> real) \<Rightarrow> (int \<Rightarrow> (real \<times> real) list \<Rightarrow> py_error + (real \<times> real) option)
     \<Rightarrow> KernelPreprocessor \<Rightarrow> real list \<Rightarrow> real list \<Rightarrow> py_error + (real list \<times> real list)" where
  "KernelPreprocessor_call rnd combine self x y =
     and_then (fill_kernels rnd self x y (zip x y) []) (\<lambda>kernels.
       let threshold_size = \<lceil>rnd (real (length x) * threshold self)\<rceil>
       in collect (combine threshold_size) kernels [] [])"

definition KernelPreprocessor_combine ::
  "int \<Rightarrow> (real \<times> real) list \<Rightarrow> py_error + (real \<times> real) option" where
  "KernelPreprocessor_combine threshold_size samples = Inl NotImplementedError"

text \<open>
  \<^verbatim>\<open>MeanKernelPreprocessor.combine\<close>. With no sample the sums stay the Python integer 0 and
  the division raises.
\<close>

definition MeanKernelPreprocessor_combine ::
  "int \<Rightarrow> (real \<times> real) list \<Rightarrow> py_error + (real \<times> real) option" where
  "MeanKernelPreprocessor_combine threshold_size samples =
     (if int (length samples) < threshold_size then Inr None
      else
        (case fold (\<lambda>(x, y) (sum_x, sum_y). (sum_x + x, sum_y + y)) samples (0, 0) of
           (sum_x, sum_y) \<Rightarrow>
             if samples = [] then Inl ZeroDivisionError
             else Inr (Some (sum_x / real (length samples), sum_y / real (length samples)))))"

definition MeanKernelPreprocessor_call ::
  "(real \<Rightarrow> real) \<Rightarrow> KernelPreprocessor \<Rightarrow> real list \<Rightarrow> real list
     \<Rightarrow> py_error + (real list \<times> real list)" where
  "MeanKernelPreprocessor_call rnd self x y =
     KernelPreprocessor_call rnd MeanKernelPreprocessor_combine self x y"







subsection \<open>ClusteringPreprocessor\<close>

record ClusteringPreprocessor =
  mode :: string
  eps :: real
  min_samples :: int

definition ClusteringPreprocessor_init :: "string \<Rightarrow> real \<Rightarrow> int \<Rightarrow> ClusteringPreprocessor" where
  "ClusteringPreprocessor_init m e ms = \<lparr>mode = m, eps = e, min_samples = ms\<rparr>"

text \<open>\<^verbatim>\<open>np.where(labels != v)\<close>: the indices, ascending.\<close>

definition np_where_ne :: "int list \<Rightarrow> int \<Rightarrow> nat list" where
  "np_where_ne labels v = filter (\<lambda>i. labels ! i \<noteq> v) [0..<length labels]"

text \<open>\<^verbatim>\<open>np.delete(a, index)\<close>: the entries at the other indices, in order.\<close>

definition np_delete :: "'a list \<Rightarrow> nat list \<Rightarrow> py_error + 'a list" where
  "np_delete a index =
     (if list_all (\<lambda>i. i < length a) index
      then Inr (map (\<lambda>i. a ! i) (filter (\<lambda>i. i \<notin> set index) [0..<length a]))
      else Inl IndexError)"

text \<open>
  \<^verbatim>\<open>ClusteringPreprocessor.__call__\<close>. scikit-learn's \<^verbatim>\<open>DBSCAN(eps, min_samples).fit(X).labels_\<close>
  is the parameter \<open>fit\<close>: it labels the points, or raises. \<^verbatim>\<open>np.c_[x, y]\<close> raises ValueError
  when the two arrays differ in length. A mode other than \<^verbatim>\<open>"DBSCAN"\<close> falls through the
  \<^verbatim>\<open>if\<close>, and the function returns Python's \<^verbatim>\<open>None\<close>.
\<close>

definition ClusteringPreprocessor_call ::
  "((real \<times> real) list \<Rightarrow> real \<Rightarrow> int \<Rightarrow> py_error + int list)
     \<Rightarrow> ClusteringPreprocessor \<Rightarrow> real list \<Rightarrow> real list
     \<Rightarrow> py_error + (real list \<times> real list) option" where
  "ClusteringPreprocessor_call fit self x y =
     (if mode self = ''DBSCAN'' then
        (if length x \<noteq> length y then Inl ValueError
         else
           and_then (fit (zip x y) (eps self) (min_samples self)) (\<lambda>labels.
           let index = np_where_ne labels (- 1) in
           and_then (np_delete x index) (\<lambda>new_x.
           and_then (np_delete y index) (\<lambda>new_y.
           Inr (Some (new_x, new_y))))))
      else Inr None)"

section \<open>Properties of float64 rounding\<close>

subsection \<open>Rounding to the nearest integer\<close>

lemma round_half_even_of_int: "round_half_even (of_int k) = k"
  by (simp add: round_half_even_def)



subsection \<open>Powers of two\<close>

lemma pow2_pos: "pow2 u \<Longrightarrow> 0 < u"
  by (auto simp: pow2_def)

lemma pow2_double: "pow2 u \<Longrightarrow> pow2 (2 * u)"
proof -
  assume "pow2 u"
  then obtain k :: int where "u = 2 powr (of_int k)" by (auto simp: pow2_def)
  then have "2 * u = 2 powr (of_int (k + 1))" by (simp add: powr_add)
  then show "pow2 (2 * u)" unfolding pow2_def by blast
qed

lemma pow2_half: "pow2 u \<Longrightarrow> pow2 (u / 2)"
proof -
  assume "pow2 u"
  then obtain k :: int where "u = 2 powr (of_int k)" by (auto simp: pow2_def)
  then have "u / 2 = 2 powr (of_int (k - 1))" by (simp add: powr_diff)
  then show "pow2 (u / 2)" unfolding pow2_def by blast
qed


lemma pow2_unit: "pow2 (1 / 2 ^ 52)"
proof -
  have "(2::real) powr (- 52) = 1 / 2 powr 52" by (rule powr_minus_divide)
  also have "(2::real) powr 52 = 2 ^ 52" by (rule powr_numeral) simp
  finally have "(1::real) / 2 ^ 52 = 2 powr (of_int (- 52))" by simp
  then show ?thesis unfolding pow2_def by blast
qed

subsection \<open>The spacing\<close>

lemma ulp_up_pow2: "pow2 u \<Longrightarrow> pow2 (ulp_up fuel u a)"
  by (induction fuel arbitrary: u) (simp_all add: pow2_double)

lemma ulp_up_lower: "2 ^ 52 * u \<le> a \<Longrightarrow> 2 ^ 52 * ulp_up fuel u a \<le> a"
  by (induction fuel arbitrary: u) auto



lemma ulp_down_pow2: "pow2 u \<Longrightarrow> pow2 (ulp_down fuel u a)"
  by (induction fuel arbitrary: u) (simp_all add: pow2_half)






lemma ulp_pow2: "pow2 (ulp a)"
proof (cases "1 \<le> a")
  case True
  then have "ulp a = ulp_up 1023 (1 / 2 ^ 52) a" unfolding ulp_def by (simp only: if_True)
  then show ?thesis using ulp_up_pow2 [OF pow2_unit] by simp
next
  case False
  then have "ulp a = ulp_down 1022 (1 / 2 ^ 52) a" unfolding ulp_def by (simp only: if_False)
  then show ?thesis using ulp_down_pow2 [OF pow2_unit] by simp
qed




lemma ulp_pos: "0 < ulp a"
  by (rule pow2_pos [OF ulp_pow2])





subsection \<open>Evaluation and float64 numbers\<close>

lemma ulp_up_numeral:
  "ulp_up (numeral n) u a = (if a < 2 ^ 53 * u then u else ulp_up (pred_numeral n) (2 * u) a)"
  by (simp add: numeral_eq_Suc)

lemma ulp_down_numeral:
  "ulp_down (numeral n) u a = (if 2 ^ 52 * u \<le> a then u else ulp_down (pred_numeral n) (u / 2) a)"
  by (simp add: numeral_eq_Suc)

lemmas float64_eval = float64_round_def round_nonneg_def ulp_def ulp_up_numeral ulp_down_numeral
  round_half_even_def Let_def

lemma ulp_up_shape: "\<exists>j. j \<le> fuel \<and> ulp_up fuel u a = 2 ^ j * u"
proof (induction fuel arbitrary: u)
  case 0
  show ?case by simp
next
  case (Suc fuel)
  show ?case
  proof (cases "a < 2 ^ 53 * u")
    case True
    then have "ulp_up (Suc fuel) u a = 2 ^ 0 * u" by simp
    then show ?thesis by blast
  next
    case False
    obtain j where j: "j \<le> fuel" "ulp_up fuel (2 * u) a = 2 ^ j * (2 * u)"
      using Suc.IH [of "2 * u"] by blast
    have "ulp_up (Suc fuel) u a = 2 ^ Suc j * u"
      using False j(2) by simp
    moreover have "Suc j \<le> Suc fuel" using j(1) by simp
    ultimately show ?thesis by blast
  qed
qed

text \<open>Whole numbers below \<open>2\<^sup>5\<^sup>3\<close> are float64 numbers.\<close>

lemma float64_round_nat:
  assumes n: "n < 2 ^ 53"
  shows "float64_round (real n) = real n"
proof (cases "n = 0")
  case True
  then show ?thesis by (simp add: float64_round_def round_nonneg_def)
next
  case False
  define a where "a = real n"
  have a1: "1 \<le> a" using False by (simp add: a_def)
  have a2: "a < 2 ^ 53" using n unfolding a_def
    by (metis of_nat_less_iff of_nat_numeral of_nat_power)
  have eq: "ulp a = ulp_up 1023 (1 / 2 ^ 52) a" using a1 by (simp add: ulp_def)
  obtain j where j: "ulp a = 2 ^ j * (1 / 2 ^ 52)"
    using ulp_up_shape [of 1023 "1 / 2 ^ 52" a] unfolding eq by blast
  have "2 ^ 52 * ((1::real) / 2 ^ 52) \<le> a" using a1 by simp
  then have "2 ^ 52 * ulp a \<le> a" unfolding eq by (rule ulp_up_lower)
  then have "(2::real) ^ j \<le> a" unfolding j by simp
  then have "(2::real) ^ j < 2 ^ 53" using a2 by linarith
  moreover have "(2::real) ^ j < 2 ^ 53 \<longleftrightarrow> j < 53"
    by (rule power_strict_increasing_iff) simp
  ultimately have j53: "j < 53" by (rule iffD1 [rotated])
  then have split: "(2::real) ^ 52 = 2 ^ (52 - j) * 2 ^ j"
    by (simp add: power_add [symmetric])
  have "a / ulp a = a * 2 ^ 52 / 2 ^ j" unfolding j by simp
  also have "\<dots> = a * 2 ^ (52 - j)" unfolding split by simp
  also have "\<dots> = of_int (int n * 2 ^ (52 - j))" by (simp add: a_def)
  finally have q: "a / ulp a = of_int (int n * 2 ^ (52 - j))" .
  have "round_nonneg a = ulp a * of_int (round_half_even (a / ulp a))"
    using a1 by (simp add: round_nonneg_def)
  also have "\<dots> = ulp a * (a / ulp a)"
    unfolding q round_half_even_of_int by (rule refl)
  also have "\<dots> = a" using ulp_pos [of a] by simp
  finally have "round_nonneg a = a" .
  then show ?thesis using a1 by (simp add: float64_round_def a_def)
qed

text \<open>A float64 number below 1 is at most \<open>1 - 2\<^sup>-\<^sup>5\<^sup>3\<close>.\<close>

lemma float64_below_one:
  assumes f: "float64_round c = c" and c1: "c < 1"
  shows "c \<le> 1 - 1 / 2 ^ 53"
proof (cases "c < 1 / 2")
  case True
  then show ?thesis by simp
next
  case False
  then have c2: "1 / 2 \<le> c" by simp
  have u: "ulp c = 1 / 2 ^ 53"
    using c1 c2 by (simp add: ulp_def ulp_down_numeral)
  define m where "m = round_half_even (c / ulp c)"
  have "c = round_nonneg c" using f c2 by (simp add: float64_round_def)
  also have "\<dots> = of_int m / 2 ^ 53"
    using c2 by (simp add: round_nonneg_def m_def u)
  finally have c: "c = of_int m / 2 ^ 53" .
  have "real_of_int m < 2 ^ 53" using c1 unfolding c by simp
  then have "real_of_int m < real_of_int (2 ^ 53)" by simp
  then have "m < 2 ^ 53" by (rule iffD1 [OF of_int_less_iff])
  then have "m \<le> 2 ^ 53 - 1" by simp
  then have "real_of_int m \<le> real_of_int (2 ^ 53 - 1)" by (rule iffD2 [OF of_int_le_iff])
  then have "real_of_int m \<le> 2 ^ 53 - 1" by simp
  then show ?thesis unfolding c by (simp add: field_simps)
qed

section \<open>Properties of the trimmed loss\<close>

lemma and_then_Inr: "and_then (Inr v) f = f v"
  by (simp add: and_then_def)



lemma argsort_ok_set:
  assumes "argsort_ok argsort a"
  shows "set (argsort a) = {0..<length a}" "distinct (argsort a)" "length (argsort a) = length a"
proof -
  have m: "mset (argsort a) = mset [0..<length a]" using assms by (simp add: argsort_ok_def)
  show "set (argsort a) = {0..<length a}" using mset_eq_setD [OF m] by simp
  show "distinct (argsort a)" using m by (metis distinct_upt mset_eq_imp_distinct_iff)
  show "length (argsort a) = length a" using mset_eq_length [OF m] by simp
qed

lemma vdot_map_map: "vdot (map f xs) (map g xs) = (\<Sum>x\<leftarrow>xs. f x * g x)"
proof -
  have "map2 (*) (map f xs) (map g xs) = map (\<lambda>x. f x * g x) xs"
    by (induction xs) simp_all
  then show ?thesis by (simp add: vdot_def)
qed


lemma residuals_eq:
  assumes "length w = shape1 X" "length y = shape0 X"
  shows "ndarray2_dot dot X w = Inr (map (\<lambda>row. dot row w) (rows X))"
    and "np_sub rnd (map (\<lambda>row. dot row w) (rows X)) y = Inr (residuals rnd dot X w y)"
proof -
  show "ndarray2_dot dot X w = Inr (map (\<lambda>row. dot row w) (rows X))"
    using assms by (simp add: ndarray2_dot_def)
  have "map2 (\<lambda>u v. rnd (u - v)) (map (\<lambda>row. dot row w) (rows X)) y = residuals rnd dot X w y"
    using assms by (intro nth_equalityI) (simp_all add: residuals_def shape0_def)
  then show "np_sub rnd (map (\<lambda>row. dot row w) (rows X)) y = Inr (residuals rnd dot X w y)"
    using assms by (simp add: np_sub_def shape0_def)
qed

lemma set_py_slice_to: "set (py_slice_to xs k) \<subseteq> set xs"
  by (auto simp: py_slice_to_def dest: in_set_takeD)

lemma length_residuals: "length (residuals rnd dot X w y) = shape0 X"
  by (simp add: residuals_def)

lemma np_take_ok: "set idx \<subseteq> {0..<length xs} \<Longrightarrow> np_take xs idx = Inr (map (\<lambda>i. xs ! i) idx)"
  by (auto simp: np_take_def list_all_iff)

lemma SquaredLoss_call_eq:
  assumes w: "length w = shape1 X" and y: "length y = shape0 X"
    and ok: "argsort_ok argsort (np_square rnd (residuals rnd dot X w y))"
  shows "SquaredLoss_call rnd dot argsort self X w y =
     (let k = \<lceil>rnd (real (shape0 X) * rnd (1 - contamination_proportion self))\<rceil>;
          r = residuals rnd dot X w y;
          e = np_square rnd r;
          kept = py_slice_to (argsort e) k
      in if k = 0 then Inl ZeroDivisionError
         else Inr (sum_list (map (\<lambda>i. e ! i) kept) / real_of_int k,
                   map (\<lambda>j. 2 / real_of_int k * (\<Sum>i\<leftarrow>kept. rows X ! i ! j * r ! i))
                     [0..<shape1 X]))"
proof -
  define k where "k = \<lceil>rnd (real (shape0 X) * rnd (1 - contamination_proportion self))\<rceil>"
  define r where "r = residuals rnd dot X w y"
  define e where "e = np_square rnd r"
  define kept where "kept = py_slice_to (argsort e) k"
  have len_r: "length r = shape0 X" by (simp add: r_def length_residuals)
  have len_e: "length e = shape0 X" by (simp add: e_def np_square_def len_r)
  have "set (argsort e) = {0..<length e}"
    using ok unfolding e_def r_def by (rule argsort_ok_set)
  then have kept_sub: "set kept \<subseteq> {0..<shape0 X}"
    using set_py_slice_to [of "argsort e" k] by (simp add: kept_def len_e)
  have t1: "np_take e kept = Inr (map (\<lambda>i. e ! i) kept)"
    using kept_sub by (intro np_take_ok) (simp add: len_e)
  have t2: "np_take r kept = Inr (map (\<lambda>i. r ! i) kept)"
    using kept_sub by (intro np_take_ok) (simp add: len_r)
  have t3: "ndarray2_take X kept = Inr \<lparr>shape1 = shape1 X, rows = map (\<lambda>i. rows X ! i) kept\<rparr>"
    using kept_sub by (simp add: ndarray2_take_def np_take_ok shape0_def and_then_Inr)
  have t4: "ndarray2_dot vdot (ndarray2_transpose \<lparr>shape1 = shape1 X, rows = map (\<lambda>i. rows X ! i) kept\<rparr>)
              (map (\<lambda>i. r ! i) kept)
            = Inr (map (\<lambda>j. \<Sum>i\<leftarrow>kept. rows X ! i ! j * r ! i) [0..<shape1 X])"
  proof -
    have "vdot (map (\<lambda>ro. ro ! j) (map (\<lambda>i. rows X ! i) kept)) (map (\<lambda>i. r ! i) kept)
          = (\<Sum>i\<leftarrow>kept. rows X ! i ! j * r ! i)" for j
      using vdot_map_map [of "\<lambda>i. rows X ! i ! j" kept "\<lambda>i. r ! i"] by (simp add: comp_def)
    then show ?thesis
      by (simp add: ndarray2_dot_def ndarray2_transpose_def shape0_def)
  qed
  have "SquaredLoss_call rnd dot argsort self X w y =
      (if k = 0 then Inl ZeroDivisionError
         else Inr (sum_list (map (\<lambda>i. e ! i) kept) / real_of_int k,
                   map (\<lambda>j. 2 / real_of_int k * (\<Sum>i\<leftarrow>kept. rows X ! i ! j * r ! i))
                     [0..<shape1 X]))"
    unfolding SquaredLoss_call_def
    using residuals_eq [OF w y] t1 t2 t3 t4
    by (simp add: and_then_Inr Let_def k_def [symmetric] r_def [symmetric] e_def [symmetric]
        kept_def [symmetric] comp_def)
  then show ?thesis
    by (simp add: Let_def k_def r_def e_def kept_def)
qed

lemma sum_list_perm_upt:
  fixes f :: "nat \<Rightarrow> real"
  assumes "mset p = mset [0..<n]"
  shows "(\<Sum>i\<leftarrow>p. f i) = (\<Sum>i\<leftarrow>[0..<n]. f i)"
proof -
  have "(\<Sum>i\<leftarrow>p. f i) = sum_mset (image_mset f (mset p))"
    by (metis mset_map sum_mset_sum_list)
  also have "\<dots> = sum_mset (image_mset f (mset [0..<n]))" using assms by simp
  also have "\<dots> = (\<Sum>i\<leftarrow>[0..<n]. f i)"
    by (metis mset_map sum_mset_sum_list)
  finally show ?thesis .
qed


lemma stable_argsort_ok: "argsort_ok stable_argsort a"
  by (simp add: argsort_ok_def stable_argsort_def)


text \<open>
  Claim C3. With contamination proportion 0, \<open>kept_size = n\<close>, and \<^verbatim>\<open>SquaredLoss.__call__\<close>
  returns the mean squared error \<open>(1 / n) \<Sum> r\<^sub>i\<^sup>2\<close> and its gradient \<open>(2 / n) X\<^sup>T r\<close>:
  ordinary least squares. The residuals and their squares are the float64 values the
  source computes; the rounding leaves \<open>1\<close> and \<open>n\<close> as they are.
\<close>

theorem SquaredLoss_call_no_contamination:
  assumes wf: "wf_ndarray2 X" and w: "length w = shape1 X" and y: "length y = shape0 X"
    and n: "1 \<le> shape0 X"
    and r1: "rnd 1 = 1" and rn: "rnd (real (shape0 X)) = real (shape0 X)"
    and ok: "argsort_ok argsort (np_square rnd (residuals rnd dot X w y))"
  shows "let n = shape0 X; r = residuals rnd dot X w y
         in \<lceil>rnd (real n * rnd (1 - 0))\<rceil> = int n
            \<and> SquaredLoss_call rnd dot argsort (SquaredLoss_init 0) X w y =
                Inr ((1 / real n) * (\<Sum>i\<leftarrow>[0..<n]. rnd (r ! i * r ! i)),
                     map (\<lambda>j. (2 / real n) * (\<Sum>i\<leftarrow>[0..<n]. rows X ! i ! j * r ! i)) [0..<shape1 X])"
proof -
  define r where "r = residuals rnd dot X w y"
  define e where "e = np_square rnd r"
  have len_r: "length r = shape0 X" by (simp add: r_def length_residuals)
  have len_e: "length e = shape0 X" by (simp add: e_def np_square_def len_r)
  have oke: "argsort_ok argsort e" using ok by (simp add: e_def r_def)
  note p = argsort_ok_set [OF oke]
  have ks: "\<lceil>rnd (real (shape0 X) * rnd (1 - 0))\<rceil> = int (shape0 X)"
    by (simp add: r1 rn)
  have m: "mset (argsort e) = mset [0..<shape0 X]"
    using oke by (simp add: argsort_ok_def len_e)
  have slice: "py_slice_to (argsort e) (int (shape0 X)) = argsort e"
    using p(3) by (simp add: py_slice_to_def len_e)
  have e_nth: "(\<Sum>i\<leftarrow>[0..<shape0 X]. e ! i) = (\<Sum>i\<leftarrow>[0..<shape0 X]. rnd (r ! i * r ! i))"
    by (rule arg_cong [where f = sum_list]) (simp add: e_def np_square_def len_r)
  have s1: "(\<Sum>i\<leftarrow>argsort e. e ! i) = (\<Sum>i\<leftarrow>[0..<shape0 X]. rnd (r ! i * r ! i))"
    using sum_list_perm_upt [OF m, of "\<lambda>i. e ! i"] e_nth by simp
  have s2: "(\<Sum>i\<leftarrow>argsort e. rows X ! i ! j * r ! i) = (\<Sum>i\<leftarrow>[0..<shape0 X]. rows X ! i ! j * r ! i)" for j
    by (rule sum_list_perm_upt [OF m])
  have "SquaredLoss_call rnd dot argsort (SquaredLoss_init 0) X w y =
                Inr ((1 / real (shape0 X)) * (\<Sum>i\<leftarrow>[0..<shape0 X]. rnd (r ! i * r ! i)),
                     map (\<lambda>j. (2 / real (shape0 X)) * (\<Sum>i\<leftarrow>[0..<shape0 X]. rows X ! i ! j * r ! i)) [0..<shape1 X])"
    using SquaredLoss_call_eq [OF w y ok, of "SquaredLoss_init 0"] n slice s1 s2 ks
    by (simp add: Let_def SquaredLoss_init_def Loss_init_def e_def [symmetric] r_def [symmetric])
  then show ?thesis
    using ks by (simp add: Let_def r_def)
qed

text \<open>
  Claim C5, as amended. \<^verbatim>\<open>SquaredLoss\<close> validates nothing. The constructor stores any
  contamination proportion. A call on well-shaped inputs fails exactly when
  \<open>kept_size = ceil (n (1 - c))\<close> is 0, as it is for \<open>n = 0\<close> and for \<open>c = 1\<close>, and the
  failure is Python's ZeroDivisionError; with every other configuration, negative or
  above 1 included, the call returns a pair. The rounding leaves \<open>0\<close> as it is.
\<close>

theorem SquaredLoss_no_validation:
  assumes wf: "wf_ndarray2 X" and w: "length w = shape1 X" and y: "length y = shape0 X"
    and r0: "rnd 0 = 0"
    and ok: "argsort_ok argsort (np_square rnd (residuals rnd dot X w y))"
  shows "contamination_proportion (SquaredLoss_init c) = c
     \<and> (shape0 X = 0 \<or> c = 1 \<longrightarrow> \<lceil>rnd (real (shape0 X) * rnd (1 - c))\<rceil> = 0)
     \<and> (\<lceil>rnd (real (shape0 X) * rnd (1 - c))\<rceil> = 0 \<longrightarrow>
          SquaredLoss_call rnd dot argsort (SquaredLoss_init c) X w y = Inl ZeroDivisionError)
     \<and> (\<lceil>rnd (real (shape0 X) * rnd (1 - c))\<rceil> \<noteq> 0 \<longrightarrow>
          (\<exists>loss gradient.
             SquaredLoss_call rnd dot argsort (SquaredLoss_init c) X w y = Inr (loss, gradient)))"
proof -
  have 1: "contamination_proportion (SquaredLoss_init c) = c"
    by (simp add: SquaredLoss_init_def Loss_init_def)
  have 2: "shape0 X = 0 \<or> c = 1 \<longrightarrow> \<lceil>rnd (real (shape0 X) * rnd (1 - c))\<rceil> = 0"
    by (auto simp: r0)
  note eq = SquaredLoss_call_eq [OF w y ok, of "SquaredLoss_init c"]
  have 3: "\<lceil>rnd (real (shape0 X) * rnd (1 - c))\<rceil> = 0 \<longrightarrow>
          SquaredLoss_call rnd dot argsort (SquaredLoss_init c) X w y = Inl ZeroDivisionError"
    using eq by (simp add: Let_def 1)
  have 4: "\<lceil>rnd (real (shape0 X) * rnd (1 - c))\<rceil> \<noteq> 0 \<longrightarrow>
          (\<exists>loss gradient.
             SquaredLoss_call rnd dot argsort (SquaredLoss_init c) X w y = Inr (loss, gradient))"
    using eq by (simp add: Let_def 1)
  show ?thesis using 1 2 3 4 by blast
qed


theorem SquaredLoss_call_no_contamination_witness:
  "wf_ndarray2 \<lparr>shape1 = 2, rows = [[1, 0], [1, 2]]\<rparr>
   \<and> float64_round 1 = 1 \<and> float64_round 2 = 2
   \<and> SquaredLoss_call float64_round (seq_dot float64_round) stable_argsort (SquaredLoss_init 0)
         \<lparr>shape1 = 2, rows = [[1, 0], [1, 2]]\<rparr> [1, 1] [0, 1] = Inr (5 / 2, [3, 4])"
proof -
  let ?X = "\<lparr>shape1 = 2, rows = [[1, 0], [1, 2]]\<rparr>"
  have wf: "wf_ndarray2 ?X" by (simp add: wf_ndarray2_def)
  have w: "length [1::real, 1] = shape1 ?X" by simp
  have y: "length [0::real, 1] = shape0 ?X" by (simp add: shape0_def)
  have n: "1 \<le> shape0 ?X" by (simp add: shape0_def)
  have r1: "float64_round 1 = 1" by (simp add: float64_eval)
  have r2: "float64_round 2 = 2" by (simp add: float64_eval)
  have rn: "float64_round (real (shape0 ?X)) = real (shape0 ?X)"
    by (simp add: shape0_def float64_eval)
  have u: "[0..<shape0 ?X] = [0, 1]" "[0..<shape1 ?X] = [0, 1]" by code_simp+
  have r: "residuals float64_round (seq_dot float64_round) ?X [1, 1] [0, 1] = [1, 2]"
    unfolding residuals_def u by (simp add: seq_dot_def float64_eval)
  have sq: "float64_round (1 * 1) = 1" "float64_round (2 * 2) = 4" by (simp_all add: float64_eval)
  note th = SquaredLoss_call_no_contamination [where dot = "seq_dot float64_round",
      OF wf w y n r1 rn stable_argsort_ok, unfolded Let_def r u]
  have call: "SquaredLoss_call float64_round (seq_dot float64_round) stable_argsort (SquaredLoss_init 0)
         ?X [1, 1] [0, 1] = Inr (5 / 2, [3, 4])"
    using th [THEN conjunct2] sq by (simp add: shape0_def)
  show ?thesis
    using wf r1 r2 call by (intro conjI)
qed

theorem SquaredLoss_no_validation_witness:
  "wf_ndarray2 \<lparr>shape1 = 1, rows = []\<rparr>
   \<and> shape0 \<lparr>shape1 = 1, rows = []\<rparr> = 0
   \<and> float64_round 0 = 0
   \<and> SquaredLoss_call float64_round (seq_dot float64_round) stable_argsort (SquaredLoss_init 0)
        \<lparr>shape1 = 1, rows = []\<rparr> [1] [] = Inl ZeroDivisionError"
proof -
  let ?X = "\<lparr>shape1 = 1, rows = []\<rparr>"
  have wf: "wf_ndarray2 ?X" by (simp add: wf_ndarray2_def)
  have w: "length [1::real] = shape1 ?X" by simp
  have y: "length ([]::real list) = shape0 ?X" by (simp add: shape0_def)
  have n: "shape0 ?X = 0" by (simp add: shape0_def)
  have r0: "float64_round 0 = 0" by (simp add: float64_eval)
  show ?thesis
    using SquaredLoss_no_validation [where rnd = float64_round and dot = "seq_dot float64_round"
        and c = 0 and argsort = stable_argsort, OF wf w y r0 stable_argsort_ok] wf n r0
    by simp
qed

text \<open>
  The claim as stated fails: contamination proportions \<open>- 1\<close> and \<open>2\<close> are accepted, and
  the call returns a loss that is not the mean squared error \<open>5 / 2\<close> of the two samples.
\<close>

theorem SquaredLoss_no_validation_counterexample:
  "SquaredLoss_call float64_round (seq_dot float64_round) stable_argsort (SquaredLoss_init (- 1))
     \<lparr>shape1 = 1, rows = [[1], [2]]\<rparr> [1] [0, 0] = Inr (5 / 4, [5 / 2])
   \<and> SquaredLoss_call float64_round (seq_dot float64_round) stable_argsort (SquaredLoss_init 0)
     \<lparr>shape1 = 1, rows = [[1], [2]]\<rparr> [1] [0, 0] = Inr (5 / 2, [5])
   \<and> SquaredLoss_call float64_round (seq_dot float64_round) stable_argsort (SquaredLoss_init 2)
     \<lparr>shape1 = 1, rows = [[1], [2]]\<rparr> [1] [0, 0] = Inr (0, [0])"
proof -
  let ?X = "\<lparr>shape1 = 1, rows = [[1], [2]]\<rparr>"
  have w: "length [1::real] = shape1 ?X" by simp
  have y: "length [0::real, 0] = shape0 ?X" by (simp add: shape0_def)
  have u: "[0..<shape0 ?X] = [0, 1]" "[0..<shape1 ?X] = [0]" by code_simp+
  have r: "residuals float64_round (seq_dot float64_round) ?X [1] [0, 0] = [1, 2]"
    unfolding residuals_def u by (simp add: seq_dot_def float64_eval)
  have e: "np_square float64_round [1, 2] = [1, 4]"
    by (simp add: np_square_def float64_eval)
  have p: "stable_argsort [1, 4] = [0, 1]" by code_simp
  have k1: "\<lceil>float64_round (real (shape0 ?X) * float64_round (1 - (- 1)))\<rceil> = 4"
    by (simp add: shape0_def float64_eval)
  have k2: "\<lceil>float64_round (real (shape0 ?X) * float64_round (1 - 0))\<rceil> = 2"
    by (simp add: shape0_def float64_eval)
  have k3: "\<lceil>float64_round (real (shape0 ?X) * float64_round (1 - 2))\<rceil> = - 2"
    by (simp add: shape0_def float64_eval)
  note eq = SquaredLoss_call_eq [where rnd = float64_round and dot = "seq_dot float64_round"
      and argsort = stable_argsort, OF w y stable_argsort_ok]
  have cp: "contamination_proportion (SquaredLoss_init c) = c" for c
    by (simp add: SquaredLoss_init_def Loss_init_def)
  have c1: "SquaredLoss_call float64_round (seq_dot float64_round) stable_argsort
      (SquaredLoss_init (- 1)) ?X [1] [0, 0] = Inr (5 / 4, [5 / 2])"
    unfolding eq [of "SquaredLoss_init (- 1)"] Let_def cp k1 r e p u
    by (simp add: py_slice_to_def)
  have c2: "SquaredLoss_call float64_round (seq_dot float64_round) stable_argsort
      (SquaredLoss_init 0) ?X [1] [0, 0] = Inr (5 / 2, [5])"
    unfolding eq [of "SquaredLoss_init 0"] Let_def cp k2 r e p u
    by (simp add: py_slice_to_def)
  have c3: "SquaredLoss_call float64_round (seq_dot float64_round) stable_argsort
      (SquaredLoss_init 2) ?X [1] [0, 0] = Inr (0, [0])"
    unfolding eq [of "SquaredLoss_init 2"] Let_def cp k3 r e p u
    by (simp add: py_slice_to_def)
  show ?thesis using c1 c2 c3 by (intro conjI)
qed

section \<open>Properties of the preprocessors\<close>

lemma np_delete_ok:
  "set index \<subseteq> {0..<length a} \<Longrightarrow>
     np_delete a index = Inr (map (\<lambda>i. a ! i) (filter (\<lambda>i. i \<notin> set index) [0..<length a]))"
  by (auto simp: np_delete_def list_all_iff)

lemma set_np_where_ne: "set (np_where_ne labels v) = {i. i < length labels \<and> labels ! i \<noteq> v}"
  by (auto simp: np_where_ne_def)

lemma filter_not_where_ne:
  "filter (\<lambda>i. i \<notin> set (np_where_ne labels v)) [0..<length labels]
     = filter (\<lambda>i. labels ! i = v) [0..<length labels]"
  by (rule filter_cong) (auto simp: set_np_where_ne)

text \<open>
  Claim C2. In mode \<^verbatim>\<open>"DBSCAN"\<close>, for parallel arrays \<open>x\<close>, \<open>y\<close> and every labelling the
  clustering returns for them, \<^verbatim>\<open>ClusteringPreprocessor.__call__\<close> returns exactly the
  samples whose label is the noise label \<open>- 1\<close>, in their original order; every sample
  with a cluster label is dropped.
\<close>

theorem ClusteringPreprocessor_call_keeps_noise:
  assumes m: "mode self = ''DBSCAN''" and len: "length x = length y"
    and fit: "fit (zip x y) (eps self) (min_samples self) = Inr labels"
    and lab: "length labels = length x"
  shows "let noise = filter (\<lambda>i. labels ! i = - 1) [0..<length x]
         in ClusteringPreprocessor_call fit self x y
              = Inr (Some (map (\<lambda>i. x ! i) noise, map (\<lambda>i. y ! i) noise))
            \<and> sorted_wrt (<) noise
            \<and> set noise = {i. i < length x \<and> labels ! i = - 1}"
proof -
  define index where "index = np_where_ne labels (- 1)"
  have sub: "set index \<subseteq> {0..<length labels}"
    by (auto simp: index_def set_np_where_ne)
  have f: "filter (\<lambda>i. i \<notin> set index) [0..<length labels]
            = filter (\<lambda>i. labels ! i = - 1) [0..<length labels]"
    unfolding index_def by (rule filter_not_where_ne)
  have dx: "np_delete x index = Inr (map (\<lambda>i. x ! i) (filter (\<lambda>i. labels ! i = - 1) [0..<length x]))"
    using np_delete_ok [of index x] sub f lab by simp
  have dy: "np_delete y index = Inr (map (\<lambda>i. y ! i) (filter (\<lambda>i. labels ! i = - 1) [0..<length x]))"
    using np_delete_ok [of index y] sub f lab len by simp
  have call: "ClusteringPreprocessor_call fit self x y
      = Inr (Some (map (\<lambda>i. x ! i) (filter (\<lambda>i. labels ! i = - 1) [0..<length x]),
                   map (\<lambda>i. y ! i) (filter (\<lambda>i. labels ! i = - 1) [0..<length x])))"
    unfolding ClusteringPreprocessor_call_def
    using m len fit dx dy by (simp add: and_then_Inr Let_def index_def [symmetric])
  have s: "sorted_wrt (<) (filter (\<lambda>i. labels ! i = - 1) [0..<length x])"
    by (rule sorted_wrt_filter) (simp add: sorted_wrt_upt)
  show ?thesis
    unfolding Let_def using call s by auto
qed

theorem ClusteringPreprocessor_call_keeps_noise_witness:
  "ClusteringPreprocessor_call (\<lambda>points e m. Inr [0, - 1, 0, - 1, 1])
      (ClusteringPreprocessor_init ''DBSCAN'' 1 5) [1, 2, 3, 4, 5] [6, 7, 8, 9, 10]
     = Inr (Some ([2, 4], [7, 9]))"
proof -
  let ?self = "ClusteringPreprocessor_init ''DBSCAN'' 1 5"
  let ?fit = "\<lambda>(points :: (real \<times> real) list) (e :: real) (m :: int). (Inr [0, - 1, 0, - 1, 1] :: py_error + int list)"
  have m: "mode ?self = ''DBSCAN''" by (simp add: ClusteringPreprocessor_init_def)
  have len: "length [1::real, 2, 3, 4, 5] = length [6::real, 7, 8, 9, 10]" by simp
  have fit: "?fit (zip [1, 2, 3, 4, 5] [6, 7, 8, 9, 10]) (eps ?self) (min_samples ?self)
      = Inr [0, - 1, 0, - 1, 1]" by simp
  have lab: "length [0::int, - 1, 0, - 1, 1] = length [1::real, 2, 3, 4, 5]" by simp
  have u: "[0..<length [1::real, 2, 3, 4, 5]] = [0, 1, 2, 3, 4]" by code_simp
  note th = ClusteringPreprocessor_call_keeps_noise [of ?self "[1, 2, 3, 4, 5]" "[6, 7, 8, 9, 10]" ?fit,
      OF m len fit lab, unfolded Let_def u]
  show ?thesis
    using th by simp
qed

text \<open>
  Claim C8 says that a mode other than \<^verbatim>\<open>"DBSCAN"\<close> fails with an explicit error. The code
  does not: the call falls through the \<^verbatim>\<open>if\<close> and returns \<^verbatim>\<open>None\<close>, whatever the labelling
  function.
\<close>

theorem ClusteringPreprocessor_call_other_mode:
  "ClusteringPreprocessor_call fit (ClusteringPreprocessor_init ''KMeans'' (1 / 2) 5) [0] [0] = Inr None"
  by (simp add: ClusteringPreprocessor_call_def ClusteringPreprocessor_init_def)

text \<open>
  Claim C9. On an empty input, \<^verbatim>\<open>KernelPreprocessor.__call__\<close> returns two empty arrays
  and raises nothing, for every configuration and every combine strategy (none is ever
  called, so even the abstract one that raises gives this result).
\<close>

theorem KernelPreprocessor_call_empty:
  "KernelPreprocessor_call rnd combine self [] y = Inr ([], [])
   \<and> MeanKernelPreprocessor_call rnd self [] y = Inr ([], [])"
  by (simp add: KernelPreprocessor_call_def MeanKernelPreprocessor_call_def and_then_Inr)

text \<open>
  Claim C10. \<^verbatim>\<open>NullPreprocessor.__call__\<close> returns its two arguments unchanged, so whatever
  is computed from its result is computed from the input.
\<close>

theorem NullPreprocessor_call_identity:
  "NullPreprocessor_call x y = Inr (x, y)
   \<and> and_then (NullPreprocessor_call x y) (\<lambda>(x', y'). f x' y') = f x y"
  by (simp add: NullPreprocessor_call_def and_then_Inr)

subsection \<open>The dictionary\<close>











subsection \<open>Window indices\<close>









subsection \<open>The second loop\<close>



















end
